theory Spec2Isabelle
  imports Complex_Main "HOL-Library.AList"
begin

section \<open>Python values and exceptions\<close>

text \<open>
  The engine is the method \<open>Trader.run\<close> of \<open>round1/squidward.py\<close>. It works on the
  values that \<open>json.loads\<close> returns, so the model has a type of those values. Numbers are
  rationals with exact arithmetic: rounding, overflow and the special values of Python's
  floats are outside the model. A dictionary is an association list in insertion order;
  \<open>AList.update\<close> overwrites a present key in place and puts a new key at the end, as
  Python's item assignment does.
\<close>

datatype pyval =
    PNone
  | PBool bool
  | PNum rat
  | PStr string
  | PList "pyval list"
  | PDict "(string \<times> pyval) list"

datatype py_error = TypeError | AttributeError | KeyError | ValueError

definition ebind :: "py_error + 'a \<Rightarrow> ('a \<Rightarrow> py_error + 'b) \<Rightarrow> py_error + 'b" where
  "ebind m f = (case m of Inl e \<Rightarrow> Inl e | Inr x \<Rightarrow> f x)"

text \<open>\<open>max(d.keys())\<close> and \<open>min(d.keys())\<close>: ValueError on an empty sequence.\<close>

fun py_max :: "rat list \<Rightarrow> py_error + rat" where
  "py_max [] = Inl ValueError"
| "py_max (x # xs) = Inr (fold max xs x)"

fun py_min :: "rat list \<Rightarrow> py_error + rat" where
  "py_min [] = Inl ValueError"
| "py_min (x # xs) = Inr (fold min xs x)"

text \<open>\<open>k in s\<close> for two strings is the substring test.\<close>

fun is_substring :: "string \<Rightarrow> string \<Rightarrow> bool" where
  "is_substring k [] = (k = [])"
| "is_substring k (c # s) = (take (length k) (c # s) = k \<or> is_substring k s)"

text \<open>\<open>product in price_history\<close>, with \<open>product\<close> a string.\<close>

fun py_contains :: "pyval \<Rightarrow> string \<Rightarrow> py_error + bool" where
  "py_contains (PDict kvs) k = Inr (k \<in> set (map fst kvs))"
| "py_contains (PList vs) k = Inr (PStr k \<in> set vs)"
| "py_contains (PStr s) k = Inr (is_substring k s)"
| "py_contains PNone k = Inl TypeError"
| "py_contains (PBool b) k = Inl TypeError"
| "py_contains (PNum r) k = Inl TypeError"

text \<open>\<open>price_history[product] = v\<close>: only a dictionary takes a string subscript.\<close>

fun py_setitem :: "pyval \<Rightarrow> string \<Rightarrow> pyval \<Rightarrow> py_error + pyval" where
  "py_setitem (PDict kvs) k v = Inr (PDict (AList.update k v kvs))"
| "py_setitem PNone k v = Inl TypeError"
| "py_setitem (PBool b) k v = Inl TypeError"
| "py_setitem (PNum r) k v = Inl TypeError"
| "py_setitem (PStr s) k v = Inl TypeError"
| "py_setitem (PList vs) k v = Inl TypeError"

text \<open>\<open>price_history[product]\<close>.\<close>

fun py_getitem :: "pyval \<Rightarrow> string \<Rightarrow> py_error + pyval" where
  "py_getitem (PDict kvs) k = (case map_of kvs k of None \<Rightarrow> Inl KeyError | Some v \<Rightarrow> Inr v)"
| "py_getitem PNone k = Inl TypeError"
| "py_getitem (PBool b) k = Inl TypeError"
| "py_getitem (PNum r) k = Inl TypeError"
| "py_getitem (PStr s) k = Inl TypeError"
| "py_getitem (PList vs) k = Inl TypeError"

text \<open>\<open>v.append(x)\<close>: only a list has the method.\<close>

fun py_append :: "pyval \<Rightarrow> pyval \<Rightarrow> py_error + pyval" where
  "py_append (PList xs) x = Inr (PList (xs @ [x]))"
| "py_append PNone x = Inl AttributeError"
| "py_append (PBool b) x = Inl AttributeError"
| "py_append (PNum r) x = Inl AttributeError"
| "py_append (PStr s) x = Inl AttributeError"
| "py_append (PDict kvs) x = Inl AttributeError"

text \<open>
  Slicing \<open>xs[start:stop]\<close> of a list: a negative index counts from the end, and an index
  out of range is clamped. \<open>None\<close> as \<open>stop\<close> is the omitted bound of \<open>xs[start:]\<close>.
\<close>

definition py_clamp :: "nat \<Rightarrow> int \<Rightarrow> nat" where
  "py_clamp n i = (if i < 0 then nat (max 0 (int n + i)) else min n (nat i))"

definition py_slice :: "'a list \<Rightarrow> int \<Rightarrow> int option \<Rightarrow> 'a list" where
  "py_slice xs start stop =
     (let n = length xs;
          a = py_clamp n start;
          b = (case stop of None \<Rightarrow> n | Some j \<Rightarrow> py_clamp n j)
      in take (b - a) (drop a xs))"

text \<open>
  \<open>sum(vs)\<close> adds from the left, starting at 0, and raises TypeError at the first element
  that is not a number. A JSON boolean is a Python \<open>bool\<close>, which counts as 0 or 1.
\<close>

fun py_number :: "pyval \<Rightarrow> py_error + rat" where
  "py_number (PNum r) = Inr r"
| "py_number (PBool b) = Inr (if b then 1 else 0)"
| "py_number PNone = Inl TypeError"
| "py_number (PStr s) = Inl TypeError"
| "py_number (PList vs) = Inl TypeError"
| "py_number (PDict kvs) = Inl TypeError"

fun py_sum_from :: "rat \<Rightarrow> pyval list \<Rightarrow> py_error + rat" where
  "py_sum_from acc [] = Inr acc"
| "py_sum_from acc (v # vs) = ebind (py_number v) (\<lambda>x. py_sum_from (acc + x) vs)"

definition py_sum :: "pyval list \<Rightarrow> py_error + rat" where
  "py_sum vs = py_sum_from 0 vs"

section \<open>The data model of the harness\<close>

text \<open>
  Modelled from the spec: the module \<open>datamodel\<close> (\<open>OrderDepth\<close>, \<open>TradingState\<close>,
  \<open>Order\<close>) is not part of the sources. An order book side maps a price to a quantity;
  the persisted state is a string that may be empty or absent; an order is the tuple of
  product, price and signed quantity.
\<close>

record OrderDepth =
  buy_orders :: "(rat \<times> rat) list"
  sell_orders :: "(rat \<times> rat) list"

record TradingState =
  traderData :: "string option"
  order_depths :: "(string \<times> OrderDepth) list"

datatype Order = Order string rat int

section \<open>Trader.run\<close>

definition short_window :: nat where
  "short_window = 3"

definition long_window :: nat where
  "long_window = 6"

definition order_quantity :: int where
  "order_quantity = 10"

text \<open>
  Lines 19 to 22. \<open>json.loads\<close> is library code: it is the parameter \<open>loads\<close>, where
  \<open>None\<close> stands for any exception it raises. An absent or empty string is falsy and is
  never handed to the decoder.
\<close>

definition load_history :: "(string \<Rightarrow> pyval option) \<Rightarrow> string option \<Rightarrow> pyval" where
  "load_history loads td =
     (case td of
        None \<Rightarrow> PDict []
      | Some s \<Rightarrow>
          if s = [] then PDict []
          else (case loads s of None \<Rightarrow> PDict [] | Some v \<Rightarrow> v))"

text \<open>Lines 31 to 41. The result \<open>None\<close> is the \<open>continue\<close> of the last branch.\<close>

definition mid_price_of :: "OrderDepth \<Rightarrow> py_error + rat option" where
  "mid_price_of order_depth =
     (if buy_orders order_depth \<noteq> [] \<and> sell_orders order_depth \<noteq> [] then
        ebind (py_max (map fst (buy_orders order_depth))) (\<lambda>best_bid.
        ebind (py_min (map fst (sell_orders order_depth))) (\<lambda>best_ask.
        Inr (Some ((best_bid + best_ask) / 2))))
      else if buy_orders order_depth \<noteq> [] then
        ebind (py_max (map fst (buy_orders order_depth))) (\<lambda>m. Inr (Some m))
      else if sell_orders order_depth \<noteq> [] then
        ebind (py_min (map fst (sell_orders order_depth))) (\<lambda>m. Inr (Some m))
      else Inr None)"

text \<open>
  Lines 45 to 47. The list is appended to in place, so the entry keeps its position in
  the dictionary.
\<close>

definition update_history :: "pyval \<Rightarrow> string \<Rightarrow> rat \<Rightarrow> py_error + pyval" where
  "update_history price_history product mid_price =
     ebind (py_contains price_history product) (\<lambda>present.
     ebind (if present then Inr price_history
            else py_setitem price_history product (PList [])) (\<lambda>ph.
     ebind (py_getitem ph product) (\<lambda>hist.
     ebind (py_append hist (PNum mid_price)) (\<lambda>hist'.
     py_setitem ph product hist'))))"

text \<open>Lines 54 to 71, on the list that line 47 has appended to. The print is left out.\<close>

definition crossover_orders :: "string \<Rightarrow> OrderDepth \<Rightarrow> pyval list \<Rightarrow> py_error + Order list" where
  "crossover_orders product order_depth hist =
     (if length hist \<ge> long_window + 1 then
        ebind (py_sum (py_slice hist (- int short_window) None)) (\<lambda>s1.
        ebind (py_sum (py_slice hist (- int long_window) None)) (\<lambda>s2.
        ebind (py_sum (py_slice hist (- int short_window - 1) (Some (- 1)))) (\<lambda>s3.
        ebind (py_sum (py_slice hist (- int long_window - 1) (Some (- 1)))) (\<lambda>s4.
          let sma_short = s1 / of_nat short_window;
              sma_long = s2 / of_nat long_window;
              sma_short_prev = s3 / of_nat short_window;
              sma_long_prev = s4 / of_nat long_window
          in if sma_short_prev \<le> sma_long_prev \<and> sma_short > sma_long then
               if sell_orders order_depth \<noteq> [] then
                 ebind (py_min (map fst (sell_orders order_depth))) (\<lambda>best_ask.
                 Inr [Order product best_ask order_quantity])
               else Inr []
             else Inr []))))
      else Inr [])"

text \<open>
  The body of the loop, lines 26 to 74, on the pair of \<open>result\<close> and \<open>price_history\<close>.
  Once line 47 has appended, the entry of the product is a list, so \<open>len\<close> and the slices
  of lines 54 to 61 are those of a list and the last case is never taken.
\<close>

definition process_product ::
  "string \<Rightarrow> OrderDepth \<Rightarrow> (string \<times> Order list) list \<times> pyval
     \<Rightarrow> py_error + (string \<times> Order list) list \<times> pyval" where
  "process_product product order_depth s =
     (case s of (result, price_history) \<Rightarrow>
        ebind (mid_price_of order_depth) (\<lambda>mp.
        case mp of
          None \<Rightarrow> Inr (result, price_history)
        | Some mid_price \<Rightarrow>
            ebind (update_history price_history product mid_price) (\<lambda>ph.
            ebind (py_getitem ph product) (\<lambda>hist.
            case hist of
              PList xs \<Rightarrow>
                ebind (crossover_orders product order_depth xs) (\<lambda>orders.
                Inr (AList.update product orders result, ph))
            | _ \<Rightarrow> Inl TypeError))))"

text \<open>The loop of line 25 over the keys of \<open>state.order_depths\<close>.\<close>

fun run_loop ::
  "(string \<times> OrderDepth) list \<Rightarrow> string list \<Rightarrow> (string \<times> Order list) list \<times> pyval
     \<Rightarrow> py_error + (string \<times> Order list) list \<times> pyval" where
  "run_loop ods [] s = Inr s"
| "run_loop ods (product # ps) s =
     (case map_of ods product of
        None \<Rightarrow> Inl KeyError
      | Some order_depth \<Rightarrow> ebind (process_product product order_depth s) (run_loop ods ps))"

text \<open>
  The whole method, lines 16 to 80. \<open>json.dumps\<close> is library code as well, and it accepts
  every value made of what \<open>json.loads\<close> returned and of numbers: the third component of
  the model's triple is the value that line 77 serialises, standing for its text.
\<close>

definition run ::
  "(string \<Rightarrow> pyval option) \<Rightarrow> TradingState
     \<Rightarrow> py_error + (string \<times> Order list) list \<times> int \<times> pyval" where
  "run loads state =
     ebind (run_loop (order_depths state) (map fst (order_depths state))
              ([], load_history loads (traderData state)))
       (\<lambda>(result, price_history). Inr (result, 1, price_history))"

section \<open>Vocabulary of the statements\<close>

text \<open>
  The entry of a product in a history value, and the sequence recorded for it (empty when
  the product has no entry).
\<close>

definition entry :: "pyval \<Rightarrow> string \<Rightarrow> pyval option" where
  "entry ph p = (case ph of PDict h \<Rightarrow> map_of h p | _ \<Rightarrow> None)"

definition history_of :: "pyval \<Rightarrow> string \<Rightarrow> pyval list" where
  "history_of ph p = (case entry ph p of Some (PList xs) \<Rightarrow> xs | _ \<Rightarrow> [])"




text \<open>
  The spec's mid-price: the mean of best bid and best ask when both sides have orders, the
  best price of the one side that has orders, and none for an empty book.
\<close>

definition best_bid :: "OrderDepth \<Rightarrow> rat" where
  "best_bid od = Max (fst ` set (buy_orders od))"

definition best_ask :: "OrderDepth \<Rightarrow> rat" where
  "best_ask od = Min (fst ` set (sell_orders od))"

definition spec_mid_price :: "OrderDepth \<Rightarrow> rat option" where
  "spec_mid_price od =
     (if buy_orders od \<noteq> [] \<and> sell_orders od \<noteq> [] then Some ((best_bid od + best_ask od) / 2)
      else if buy_orders od \<noteq> [] then Some (best_bid od)
      else if sell_orders od \<noteq> [] then Some (best_ask od)
      else None)"

definition mid_price_derivable :: "(string \<times> OrderDepth) list \<Rightarrow> string \<Rightarrow> bool" where
  "mid_price_derivable ods p =
     (case map_of ods p of
        None \<Rightarrow> False
      | Some od \<Rightarrow> buy_orders od \<noteq> [] \<or> sell_orders od \<noteq> [])"

text \<open>
  The spec's moving averages: \<open>spec_sma n k xs\<close> is the mean of the \<open>n\<close> values of \<open>xs\<close>
  that end \<open>k\<close> positions before the last one, and the bullish crossover compares the
  windows of 3 and of 6 values, now and one position earlier.
\<close>

definition spec_sma :: "nat \<Rightarrow> nat \<Rightarrow> rat list \<Rightarrow> rat" where
  "spec_sma n k xs = sum_list (take n (drop (length xs - n - k) xs)) / of_nat n"

definition bullish_crossover :: "rat list \<Rightarrow> bool" where
  "bullish_crossover xs \<longleftrightarrow>
     spec_sma 3 1 xs \<le> spec_sma 6 1 xs \<and> spec_sma 3 0 xs > spec_sma 6 0 xs"

text \<open>
  To run the engine on a concrete persisted state, the decoder is given by the one
  document it has to read and the value \<open>json.loads\<close> returns for it; it raises on any
  other text.
\<close>

definition loads_only :: "string \<Rightarrow> pyval \<Rightarrow> string \<Rightarrow> pyval option" where
  "loads_only doc v s = (if s = doc then Some v else None)"

section \<open>The Python operations on well-formed data\<close>

lemma ebind_Inl [simp]: "ebind (Inl e) f = Inl e"
  by (simp add: ebind_def)

lemma ebind_Inr [simp]: "ebind (Inr x) f = f x"
  by (simp add: ebind_def)

lemma ebind_eq_Inr: "ebind m f = Inr y \<longleftrightarrow> (\<exists>x. m = Inr x \<and> f x = Inr y)"
  by (cases m) simp_all

lemma py_max_Max:
  assumes "xs \<noteq> []"
  shows "py_max xs = Inr (Max (set xs))"
proof (cases xs)
  case Nil
  with assms show ?thesis by simp
next
  case (Cons y ys)
  then show ?thesis using Max.set_eq_fold [of y ys] by simp
qed

lemma py_min_Min:
  assumes "xs \<noteq> []"
  shows "py_min xs = Inr (Min (set xs))"
proof (cases xs)
  case Nil
  with assms show ?thesis by simp
next
  case (Cons y ys)
  then show ?thesis using Min.set_eq_fold [of y ys] by simp
qed

lemma mid_price_of_value: "mid_price_of od = Inr (spec_mid_price od)"
  by (simp add: mid_price_of_def spec_mid_price_def best_bid_def best_ask_def py_max_Max py_min_Min)






lemma crossover_orders_short:
  "length xs < 7 \<Longrightarrow> crossover_orders p od xs = Inr []"
  by (simp add: crossover_orders_def long_window_def)


lemma crossover_orders_no_ask:
  "sell_orders od = [] \<Longrightarrow> crossover_orders p od xs = Inr orders \<Longrightarrow> orders = []"
  by (auto simp add: crossover_orders_def ebind_eq_Inr Let_def split: if_splits)

lemma update_history_dict:
  "update_history (PDict h) p m =
     (case map_of h p of
        None \<Rightarrow> Inr (PDict (AList.update p (PList [PNum m]) h))
      | Some v \<Rightarrow> ebind (py_append v (PNum m)) (\<lambda>v'. Inr (PDict (AList.update p v' h))))"
proof (cases "map_of h p")
  case None
  then have "p \<notin> fst ` set h" by (simp add: map_of_eq_None_iff)
  with None show ?thesis by (simp add: update_history_def update_conv')
next
  case (Some v)
  then have "p \<in> fst ` set h" by (metis map_of_eq_None_iff option.distinct(1))
  with Some show ?thesis by (cases v) (simp_all add: update_history_def)
qed

lemma update_history_other:
  assumes "\<And>h. ph \<noteq> PDict h"
  shows "update_history ph p m = Inl TypeError"
proof (cases ph)
  case (PDict h)
  with assms show ?thesis by blast
qed (simp_all add: update_history_def)

lemma process_product_skip:
  "spec_mid_price od = None \<Longrightarrow> process_product k od s = Inr s"
  by (cases s) (simp add: process_product_def mid_price_of_value)

lemma process_product_Inr:
  assumes "process_product p od (res, ph) = Inr (res1, ph1)" and "spec_mid_price od = Some m"
  shows "\<exists>h orders. ph = PDict h
           \<and> (map_of h p = None \<or> map_of h p = Some (PList (history_of ph p)))
           \<and> ph1 = PDict (AList.update p (PList (history_of ph p @ [PNum m])) h)
           \<and> crossover_orders p od (history_of ph p @ [PNum m]) = Inr orders
           \<and> res1 = AList.update p orders res"
proof (cases ph)
  case (PDict h)
  show ?thesis
  proof (cases "map_of h p")
    case None
    with PDict assms show ?thesis
      by (auto simp add: process_product_def mid_price_of_value update_history_dict
          update_conv' history_of_def entry_def ebind_eq_Inr)
  next
    case (Some v)
    with PDict assms obtain xs where v: "v = PList xs"
      by (cases v) (auto simp add: process_product_def mid_price_of_value update_history_dict)
    with Some PDict assms show ?thesis
      by (auto simp add: process_product_def mid_price_of_value update_history_dict
          update_conv' history_of_def entry_def ebind_eq_Inr)
  qed
qed (use assms in \<open>simp_all add: process_product_def mid_price_of_value update_history_other\<close>)

lemma process_product_other:
  assumes "process_product k od (res, ph) = Inr (res1, ph1)" and "p \<noteq> k"
  shows "map_of res1 p = map_of res p \<and> entry ph1 p = entry ph p"
proof (cases "spec_mid_price od")
  case None
  with assms show ?thesis by (simp add: process_product_skip)
next
  case (Some m)
  from process_product_Inr [OF assms(1) Some] assms(2) show ?thesis
    by (auto simp add: entry_def update_conv')
qed

lemma process_product_self:
  assumes "process_product p od (res, ph) = Inr (res1, ph1)" and "spec_mid_price od = Some m"
  shows "(entry ph p = None \<or> entry ph p = Some (PList (history_of ph p)))
         \<and> entry ph1 p = Some (PList (history_of ph p @ [PNum m]))
         \<and> (\<exists>orders. crossover_orders p od (history_of ph p @ [PNum m]) = Inr orders
                \<and> map_of res1 p = Some orders)"
  using process_product_Inr [OF assms]
  by (auto simp add: entry_def update_conv')

lemma run_loop_other:
  assumes "run_loop ods ks (res, ph) = Inr (res', ph')"
    and "p \<notin> set ks \<or> (\<exists>od. map_of ods p = Some od \<and> spec_mid_price od = None)"
  shows "map_of res' p = map_of res p \<and> entry ph' p = entry ph p"
  using assms
proof (induction ks arbitrary: res ph)
  case Nil
  then show ?case by simp
next
  case (Cons k ks)
  from Cons.prems(1) obtain odk res1 ph1 where
    odk: "map_of ods k = Some odk" and
    step: "process_product k odk (res, ph) = Inr (res1, ph1)" and
    rest: "run_loop ods ks (res1, ph1) = Inr (res', ph')"
    by (auto simp add: ebind_eq_Inr split: option.splits)
  from Cons.prems(2) have "p \<notin> set ks \<or> (\<exists>od. map_of ods p = Some od \<and> spec_mid_price od = None)"
    by auto
  from Cons.IH [OF rest this] have a: "map_of res' p = map_of res1 p \<and> entry ph' p = entry ph1 p" .
  have "map_of res1 p = map_of res p \<and> entry ph1 p = entry ph p"
  proof (cases "p = k")
    case True
    with Cons.prems(2) odk have "spec_mid_price odk = None" by auto
    with step show ?thesis by (simp add: process_product_skip)
  next
    case False
    with step show ?thesis by (rule process_product_other)
  qed
  with a show ?case by simp
qed

lemma run_loop_self:
  assumes "run_loop ods ks (res, ph) = Inr (res', ph')"
    and "distinct ks" and "p \<in> set ks" and "map_of ods p = Some od" and "spec_mid_price od = Some m"
  shows "(entry ph p = None \<or> entry ph p = Some (PList (history_of ph p)))
         \<and> entry ph' p = Some (PList (history_of ph p @ [PNum m]))
         \<and> (\<exists>orders. crossover_orders p od (history_of ph p @ [PNum m]) = Inr orders
                \<and> map_of res' p = Some orders)"
  using assms(1,2,3)
proof (induction ks arbitrary: res ph)
  case Nil
  then show ?case by simp
next
  case (Cons k ks)
  from Cons.prems(1) obtain odk res1 ph1 where
    odk: "map_of ods k = Some odk" and
    step: "process_product k odk (res, ph) = Inr (res1, ph1)" and
    rest: "run_loop ods ks (res1, ph1) = Inr (res', ph')"
    by (auto simp add: ebind_eq_Inr split: option.splits)
  show ?case
  proof (cases "p = k")
    case True
    with Cons.prems(2) have "p \<notin> set ks" by simp
    then have "map_of res' p = map_of res1 p \<and> entry ph' p = entry ph1 p"
      using run_loop_other [OF rest] by blast
    moreover from True odk assms(4) have "odk = od" by simp
    ultimately show ?thesis
      using process_product_self [of p od res ph res1 ph1 m] step True assms(5) by simp
  next
    case False
    with Cons.prems have "distinct ks" and "p \<in> set ks" by auto
    from Cons.IH [OF rest this]
    have "(entry ph1 p = None \<or> entry ph1 p = Some (PList (history_of ph1 p)))
         \<and> entry ph' p = Some (PList (history_of ph1 p @ [PNum m]))
         \<and> (\<exists>orders. crossover_orders p od (history_of ph1 p @ [PNum m]) = Inr orders
                \<and> map_of res' p = Some orders)" .
    moreover from process_product_other [OF step False]
    have "entry ph1 p = entry ph p" by simp
    then have "entry ph1 p = entry ph p \<and> history_of ph1 p = history_of ph p"
      by (simp add: history_of_def)
    ultimately show ?thesis by simp
  qed
qed








lemma run_Inr:
  "run loads st = Inr (result, conversions, ph') \<longleftrightarrow>
     conversions = 1 \<and>
     run_loop (order_depths st) (map fst (order_depths st))
       ([], load_history loads (traderData st)) = Inr (result, ph')"
  by (auto simp add: run_def ebind_eq_Inr)


section \<open>What one tick does for one product\<close>

lemma spec_mid_price_None:
  "spec_mid_price od = None \<longleftrightarrow> buy_orders od = [] \<and> sell_orders od = []"
  by (simp add: spec_mid_price_def)

lemma derivable_iff:
  "mid_price_derivable ods p \<longleftrightarrow> (\<exists>od. map_of ods p = Some od \<and> spec_mid_price od \<noteq> None)"
  by (cases "map_of ods p") (auto simp add: mid_price_derivable_def spec_mid_price_None)

lemma run_product:
  assumes "run loads st = Inr (result, conversions, ph')"
    and "distinct (map fst (order_depths st))"
    and "map_of (order_depths st) p = Some od"
    and "spec_mid_price od = Some m"
  shows "(entry (load_history loads (traderData st)) p = None
          \<or> entry (load_history loads (traderData st)) p
              = Some (PList (history_of (load_history loads (traderData st)) p)))
       \<and> entry ph' p = Some (PList (history_of (load_history loads (traderData st)) p @ [PNum m]))
       \<and> (\<exists>orders. crossover_orders p od
                     (history_of (load_history loads (traderData st)) p @ [PNum m]) = Inr orders
              \<and> map_of result p = Some orders)"
proof -
  from assms(1) have loop: "run_loop (order_depths st) (map fst (order_depths st))
       ([], load_history loads (traderData st)) = Inr (result, ph')"
    by (simp add: run_Inr)
  from assms(3) have "p \<in> set (map fst (order_depths st))"
    by (auto dest: map_of_SomeD intro: rev_image_eqI)
  from run_loop_self [OF loop assms(2) this assms(3) assms(4)] show ?thesis .
qed

lemma run_unprocessed:
  assumes "run loads st = Inr (result, conversions, ph')"
    and "\<not> mid_price_derivable (order_depths st) p"
  shows "map_of result p = None \<and> entry ph' p = entry (load_history loads (traderData st)) p"
proof -
  from assms(1) have loop: "run_loop (order_depths st) (map fst (order_depths st))
       ([], load_history loads (traderData st)) = Inr (result, ph')"
    by (simp add: run_Inr)
  have "p \<notin> set (map fst (order_depths st))
        \<or> (\<exists>od. map_of (order_depths st) p = Some od \<and> spec_mid_price od = None)"
  proof (cases "map_of (order_depths st) p")
    case None
    then show ?thesis by (simp add: map_of_eq_None_iff)
  next
    case (Some od)
    with assms(2) have "spec_mid_price od = None"
      by (simp add: derivable_iff)
    with Some show ?thesis by simp
  qed
  from run_loop_other [OF loop this] show ?thesis by simp
qed

lemma history_of_entry:
  "entry ph p = Some (PList xs) \<Longrightarrow> history_of ph p = xs"
  by (simp add: history_of_def)

text \<open>
  Unfolding the engine on a concrete state: the definitions of \<open>run\<close> and of the steps
  it is made of.
\<close>

lemmas run_defs = run_def load_history_def process_product_def mid_price_of_def
  update_history_def crossover_orders_def py_sum_def py_slice_def py_clamp_def
  short_window_def long_window_def order_quantity_def loads_only_def

section \<open>The claims\<close>





text \<open>
  Claim C3. After a tick that returns, the history of every product is as long as in the
  incoming state plus one when a mid-price is derivable for it this tick, and as long as
  before otherwise. The incoming sequence is a prefix of the returned one, so nothing is
  cut or reordered, and a product without a derivable mid-price, in particular one that is
  absent from the snapshot, keeps its entry as it was.
\<close>

theorem history_growth:
  assumes "run loads st = Inr (result, conversions, ph')"
    and "distinct (map fst (order_depths st))"
  shows "length (history_of ph' p)
           = length (history_of (load_history loads (traderData st)) p)
             + (if mid_price_derivable (order_depths st) p then 1 else 0)
       \<and> take (length (history_of (load_history loads (traderData st)) p)) (history_of ph' p)
           = history_of (load_history loads (traderData st)) p
       \<and> (\<not> mid_price_derivable (order_depths st) p \<longrightarrow>
            entry ph' p = entry (load_history loads (traderData st)) p)
       \<and> (p \<notin> fst ` set (order_depths st) \<longrightarrow>
            entry ph' p = entry (load_history loads (traderData st)) p)"
proof (cases "mid_price_derivable (order_depths st) p")
  case True
  then obtain od m where "map_of (order_depths st) p = Some od" and "spec_mid_price od = Some m"
    by (auto simp add: derivable_iff)
  from run_product [OF assms this]
  have "history_of ph' p = history_of (load_history loads (traderData st)) p @ [PNum m]"
    by (simp add: history_of_entry)
  moreover from \<open>map_of (order_depths st) p = Some od\<close> have "p \<in> fst ` set (order_depths st)"
    by (auto dest: map_of_SomeD intro: rev_image_eqI)
  ultimately show ?thesis using True by simp
next
  case False
  from run_unprocessed [OF assms(1) False]
  have same: "entry ph' p = entry (load_history loads (traderData st)) p" by simp
  then have "history_of ph' p = history_of (load_history loads (traderData st)) p"
    by (simp add: history_of_def)
  with same False show ?thesis by simp
qed

theorem history_growth_witness:
  "run (loads_only ''{\"A\": [10, 11], \"B\": [7], \"C\": [3, 4]}''
          (PDict [(''A'', PList [PNum 10, PNum 11]), (''B'', PList [PNum 7]),
                  (''C'', PList [PNum 3, PNum 4])]))
       \<lparr>traderData = Some ''{\"A\": [10, 11], \"B\": [7], \"C\": [3, 4]}'',
        order_depths =
          [(''A'', \<lparr>buy_orders = [(11, 5)], sell_orders = [(13, 4)]\<rparr>),
           (''C'', \<lparr>buy_orders = [], sell_orders = []\<rparr>),
           (''D'', \<lparr>buy_orders = [], sell_orders = [(20, 1)]\<rparr>)]\<rparr>
     = Inr ([(''A'', []), (''D'', [])], 1,
            PDict [(''A'', PList [PNum 10, PNum 11, PNum 12]), (''B'', PList [PNum 7]),
                   (''C'', PList [PNum 3, PNum 4]), (''D'', PList [PNum 20])])
   \<and> length [PNum 10, PNum 11, PNum 12] = length [PNum 10, PNum 11] + 1
   \<and> take (length [PNum 10, PNum 11]) [PNum 10, PNum 11, PNum 12] = [PNum 10, PNum 11]
   \<and> entry (PDict [(''A'', PList [PNum 10, PNum 11, PNum 12]), (''B'', PList [PNum 7]),
                    (''C'', PList [PNum 3, PNum 4]), (''D'', PList [PNum 20])]) ''B''
       = Some (PList [PNum 7])
   \<and> entry (PDict [(''A'', PList [PNum 10, PNum 11, PNum 12]), (''B'', PList [PNum 7]),
                    (''C'', PList [PNum 3, PNum 4]), (''D'', PList [PNum 20])]) ''C''
       = Some (PList [PNum 3, PNum 4])
   \<and> length (history_of (PDict [(''A'', PList [PNum 10, PNum 11, PNum 12]),
                    (''B'', PList [PNum 7]), (''C'', PList [PNum 3, PNum 4]),
                    (''D'', PList [PNum 20])]) ''D'') = 0 + 1"
proof -
  let ?doc = "''{\"A\": [10, 11], \"B\": [7], \"C\": [3, 4]}''"
  let ?ph = "PDict [(''A'', PList [PNum 10, PNum 11]), (''B'', PList [PNum 7]),
                    (''C'', PList [PNum 3, PNum 4])]"
  let ?loads = "loads_only ?doc ?ph"
  let ?st = "\<lparr>traderData = Some ?doc,
              order_depths =
                [(''A'', \<lparr>buy_orders = [(11, 5)], sell_orders = [(13, 4)]\<rparr>),
                 (''C'', \<lparr>buy_orders = [], sell_orders = []\<rparr>),
                 (''D'', \<lparr>buy_orders = [], sell_orders = [(20, 1)]\<rparr>)]\<rparr>"
  let ?ph' = "PDict [(''A'', PList [PNum 10, PNum 11, PNum 12]), (''B'', PList [PNum 7]),
                     (''C'', PList [PNum 3, PNum 4]), (''D'', PList [PNum 20])]"
  have h1: "run ?loads ?st = Inr ([(''A'', []), (''D'', [])], 1, ?ph')"
    by (simp add: run_defs)
  have h2: "distinct (map fst (order_depths ?st))" by simp
  from history_growth [OF h1 h2, of "''A''"] history_growth [OF h1 h2, of "''B''"]
    history_growth [OF h1 h2, of "''C''"] history_growth [OF h1 h2, of "''D''"] h1
  show ?thesis
    by (simp add: history_of_def entry_def load_history_def loads_only_def
        mid_price_derivable_def)
qed








text \<open>
  Claim C7. When the history of a product holds fewer than 7 values after this tick's
  append, the product's list in the result is empty whatever the values are, and the
  mid-price has been appended to its history.
\<close>

theorem no_signal_on_short_history:
  assumes "run loads st = Inr (result, conversions, ph')"
    and "distinct (map fst (order_depths st))"
    and "map_of (order_depths st) p = Some od"
    and "mid_price_of od = Inr (Some m)"
    and "length (history_of (load_history loads (traderData st)) p @ [PNum m]) < 7"
  shows "map_of result p = Some []
       \<and> history_of ph' p = history_of (load_history loads (traderData st)) p @ [PNum m]"
proof -
  from assms(4) have mid: "spec_mid_price od = Some m"
    by (simp add: mid_price_of_value)
  from run_product [OF assms(1,2,3) mid]
  obtain orders where
    c: "crossover_orders p od (history_of (load_history loads (traderData st)) p @ [PNum m])
          = Inr orders"
    and res: "map_of result p = Some orders"
    and ent: "entry ph' p
          = Some (PList (history_of (load_history loads (traderData st)) p @ [PNum m]))"
    by auto
  from c assms(5) have "orders = []"
    by (simp only: crossover_orders_short sum.inject)
  with res ent show ?thesis by (simp add: history_of_entry)
qed

theorem no_signal_on_short_history_witness:
  "run (loads_only ''{\"A\": [1, 1, 1, 1, 1]}''
          (PDict [(''A'', PList (map PNum [1, 1, 1, 1, 1]))]))
       \<lparr>traderData = Some ''{\"A\": [1, 1, 1, 1, 1]}'',
        order_depths = [(''A'', \<lparr>buy_orders = [(99, 5)], sell_orders = [(101, 4)]\<rparr>)]\<rparr>
     = Inr ([(''A'', [])], 1, PDict [(''A'', PList (map PNum [1, 1, 1, 1, 1, 100]))])
   \<and> map_of [(''A'', [] :: Order list)] ''A'' = Some []
   \<and> history_of (PDict [(''A'', PList (map PNum [1, 1, 1, 1, 1, 100]))]) ''A''
       = map PNum [1, 1, 1, 1, 1] @ [PNum 100]"
proof -
  let ?doc = "''{\"A\": [1, 1, 1, 1, 1]}''"
  let ?ph = "PDict [(''A'', PList (map PNum [1, 1, 1, 1, 1]))]"
  let ?loads = "loads_only ?doc ?ph"
  let ?od = "\<lparr>buy_orders = [(99, 5)], sell_orders = [(101, 4)]\<rparr>"
  let ?st = "\<lparr>traderData = Some ?doc, order_depths = [(''A'', ?od)]\<rparr>"
  have l: "load_history ?loads (traderData ?st) = ?ph"
    by (simp add: load_history_def loads_only_def)
  have h1: "run ?loads ?st
              = Inr ([(''A'', [])], 1, PDict [(''A'', PList (map PNum [1, 1, 1, 1, 1, 100]))])"
    by (simp add: run_defs)
  have h2: "distinct (map fst (order_depths ?st))" by simp
  have h3: "map_of (order_depths ?st) ''A'' = Some ?od" by simp
  have h4: "mid_price_of ?od = Inr (Some 100)" by (simp add: mid_price_of_def)
  have h5: "length (history_of (load_history ?loads (traderData ?st)) ''A'' @ [PNum 100]) < 7"
    unfolding l by (simp add: history_of_def entry_def)
  from no_signal_on_short_history [OF h1 h2 h3 h4 h5] h1 show ?thesis
    by (simp add: history_of_def entry_def load_history_def loads_only_def)
qed

text \<open>
  Claim C8. When the bullish crossover holds for a product on a history of at least 7
  numbers but \<open>sell_orders\<close> is empty, the product's list in the result is empty.
\<close>

theorem no_order_without_ask:
  assumes "run loads st = Inr (result, conversions, ph')"
    and "distinct (map fst (order_depths st))"
    and "map_of (order_depths st) p = Some od"
    and "mid_price_of od = Inr (Some m)"
    and "history_of (load_history loads (traderData st)) p = map PNum ns"
    and "7 \<le> length (ns @ [m])"
    and "bullish_crossover (ns @ [m])"
    and "sell_orders od = []"
  shows "map_of result p = Some []"
proof -
  from assms(4) have mid: "spec_mid_price od = Some m"
    by (simp add: mid_price_of_value)
  from run_product [OF assms(1,2,3) mid]
  obtain orders where
    c: "crossover_orders p od (history_of (load_history loads (traderData st)) p @ [PNum m])
          = Inr orders"
    and res: "map_of result p = Some orders"
    by auto
  from assms(8) c have "orders = []" by (rule crossover_orders_no_ask)
  with res show ?thesis by simp
qed

theorem no_order_without_ask_witness:
  "run (loads_only ''{\"A\": [10, 10, 10, 10, 10, 10]}''
          (PDict [(''A'', PList (map PNum [10, 10, 10, 10, 10, 10]))]))
       \<lparr>traderData = Some ''{\"A\": [10, 10, 10, 10, 10, 10]}'',
        order_depths = [(''A'', \<lparr>buy_orders = [(16, 5), (14, 2)], sell_orders = []\<rparr>)]\<rparr>
     = Inr ([(''A'', [])], 1, PDict [(''A'', PList (map PNum [10, 10, 10, 10, 10, 10, 16]))])
   \<and> bullish_crossover ([10, 10, 10, 10, 10, 10] @ [16])
   \<and> map_of [(''A'', [] :: Order list)] ''A'' = Some []"
proof -
  let ?doc = "''{\"A\": [10, 10, 10, 10, 10, 10]}''"
  let ?ph = "PDict [(''A'', PList (map PNum [10, 10, 10, 10, 10, 10]))]"
  let ?loads = "loads_only ?doc ?ph"
  let ?od = "\<lparr>buy_orders = [(16, 5), (14, 2)], sell_orders = []\<rparr>"
  let ?st = "\<lparr>traderData = Some ?doc, order_depths = [(''A'', ?od)]\<rparr>"
  have l: "load_history ?loads (traderData ?st) = ?ph"
    by (simp add: load_history_def loads_only_def)
  have h1: "run ?loads ?st = Inr ([(''A'', [])], 1,
              PDict [(''A'', PList (map PNum [10, 10, 10, 10, 10, 10, 16]))])"
    by (simp add: run_defs)
  have h2: "distinct (map fst (order_depths ?st))" by simp
  have h3: "map_of (order_depths ?st) ''A'' = Some ?od" by simp
  have h4: "mid_price_of ?od = Inr (Some 16)" by (simp add: mid_price_of_def)
  have h5: "history_of (load_history ?loads (traderData ?st)) ''A''
              = map PNum [10, 10, 10, 10, 10, 10]"
    unfolding l by (simp add: history_of_def entry_def)
  have h6: "7 \<le> length ([10, 10, 10, 10, 10, 10] @ [16 :: rat])" by simp
  have h7: "bullish_crossover ([10, 10, 10, 10, 10, 10] @ [16])"
    by (simp add: bullish_crossover_def spec_sma_def)
  have h8: "sell_orders ?od = []" by simp
  from no_order_without_ask [OF h1 h2 h3 h4 h5 h6 h7 h8] h1 h7 show ?thesis by simp
qed

text \<open>
  Claim C10. The second component of every returned triple is 1.
\<close>

theorem conversions_constant:
  assumes "run loads st = Inr (result, conversions, ph')"
  shows "conversions = 1"
  using assms by (simp add: run_Inr)

theorem conversions_constant_witness:
  "run (loads_only ''{}'' (PDict []))
       \<lparr>traderData = Some [],
        order_depths = [(''A'', \<lparr>buy_orders = [(10, 5)], sell_orders = [(12, 4)]\<rparr>),
                        (''B'', \<lparr>buy_orders = [], sell_orders = []\<rparr>)]\<rparr>
     = Inr ([(''A'', [])], 1, PDict [(''A'', PList [PNum 11])])
   \<and> fst (snd ([(''A'', [] :: Order list)], 1 :: int, PDict [(''A'', PList [PNum 11])])) = 1"
proof -
  let ?loads = "loads_only ''{}'' (PDict [])"
  let ?st = "\<lparr>traderData = Some [],
        order_depths = [(''A'', \<lparr>buy_orders = [(10, 5)], sell_orders = [(12, 4)]\<rparr>),
                        (''B'', \<lparr>buy_orders = [], sell_orders = []\<rparr>)]\<rparr>"
  have h: "run ?loads ?st = Inr ([(''A'', [])], 1, PDict [(''A'', PList [PNum 11])])"
    by (simp add: run_defs)
  from conversions_constant [OF h] h show ?thesis by simp
qed

end
